theory Spec2Isabelle
  imports Complex_Main "HOL-Library.Sublist" "HOL-Library.Word"
begin

section \<open>Python strings\<close>

text \<open>
  A Python \<open>str\<close> is modelled as a \<^typ>\<open>string\<close> holding its UTF-8 encoding. The
  program only searches for and splits on ASCII text, which gives the same result on
  the encoding as on the code points.
\<close>

text \<open>\<open>sub in s\<close>: the substring test.\<close>

fun contains :: "string \<Rightarrow> string \<Rightarrow> bool" where
  "contains sub [] = (sub = [])"
| "contains sub (c # cs) = (prefix sub (c # cs) \<or> contains sub cs)"

text \<open>\<open>s.endswith(suf)\<close>.\<close>

definition endswith :: "string \<Rightarrow> string \<Rightarrow> bool" where
  "endswith s suf = prefix (rev suf) (rev s)"

text \<open>
  \<open>s.split(sep)\<close> for a separator of one character, the only kind the program uses
  (\<open>"/"\<close> and \<open>"-"\<close>). The result is never empty, so that \<open>[0]\<close> and \<open>[-1]\<close> of it
  never raise; the second branch of the \<open>case\<close> is unreachable.
\<close>

fun split :: "char \<Rightarrow> string \<Rightarrow> string list" where
  "split sep [] = [[]]"
| "split sep (c # cs) =
     (if c = sep then [] # split sep cs
      else (case split sep cs of l # ls \<Rightarrow> (c # l) # ls | [] \<Rightarrow> [[c]]))"

text \<open>\<open>sep.join(xs)\<close>.\<close>

fun join :: "string \<Rightarrow> string list \<Rightarrow> string" where
  "join sep [] = []"
| "join sep [x] = x"
| "join sep (x # y # ys) = x @ sep @ join sep (y # ys)"

text \<open>\<open>xs[-2:]\<close>: the last two elements, or all of them when there are fewer.\<close>

definition last_two :: "'a list \<Rightarrow> 'a list" where
  "last_two xs = drop (length xs - 2) xs"

text \<open>
  \<open>s.replace(old, new)\<close>: every non-overlapping occurrence of \<open>old\<close>, from the left.
  With an empty \<open>old\<close> Python puts \<open>new\<close> before every character and at the end.
\<close>

fun replace :: "string \<Rightarrow> string \<Rightarrow> string \<Rightarrow> string" where
  "replace old new [] = (if old = [] then new else [])"
| "replace old new (c # cs) =
     (if old = [] then new @ c # replace old new cs
      else if prefix old (c # cs) then new @ replace old new (drop (length old - 1) cs)
      else c # replace old new cs)"

section \<open>Errors\<close>

text \<open>
  Every exception the program can raise inside the per-URL \<open>try\<close> is a value of
  \<open>error\<close>; the argument is the message that \<open>str(e)\<close> gives. \<open>ValueError\<close> is
  raised by the program itself, the others by the libraries it calls.
\<close>

datatype error =
    ValueError string
  | RequestException string
  | ArchiveError string
  | PolarsError string
  | HubError string
  | OSError string

fun str :: "error \<Rightarrow> string" where
  "str (ValueError m) = m"
| "str (RequestException m) = m"
| "str (ArchiveError m) = m"
| "str (PolarsError m) = m"
| "str (HubError m) = m"
| "str (OSError m) = m"

section \<open>URL Parser\<close>

record parsed_url =
  url :: string
  file_name :: string
  symbol :: string
  month_str :: string

definition parse_url :: "string \<Rightarrow> error + parsed_url" where
  "parse_url u =
     (if \<not> contains ''aggTrades'' u then
        Inl (ValueError (''URL does not contain 'aggTrades'' @ [CHR 0x27]))
      else if \<not> contains ''futures'' u then
        Inl (ValueError (''URL does not contain 'futures'' @ [CHR 0x27]))
      else if \<not> contains ''monthly'' u then
        Inl (ValueError (''URL does not contain 'monthly'' @ [CHR 0x27]))
      else
        let fname = last (split CHR ''/'' u);
            symb = hd (split CHR ''-'' fname);
            month = replace ''.zip'' [] (join ''-'' (last_two (split CHR ''-'' fname)));
            res = \<lparr>url = u, file_name = fname, symbol = symb, month_str = month\<rparr>
        in if \<not> endswith symb ''USDT'' then
             Inl (ValueError (''Parse failed, Symbol '' @ symb @ '' does not end with 'USDT'' @ [CHR 0x27]))
           else Inr res)"

section \<open>Output paths\<close>

definition get_kline_out_path :: "string \<Rightarrow> string \<Rightarrow> string \<Rightarrow> string" where
  "get_kline_out_path symb month ival =
     ''klines/interval='' @ ival @ ''/symbol='' @ symb @ ''/month='' @ month @ ''/data.parquet''"

definition get_agg_trade_out_path :: "string \<Rightarrow> string \<Rightarrow> string" where
  "get_agg_trade_out_path symb month =
     ''agg_trades/symbol='' @ symb @ ''/month='' @ month @ ''/data.parquet''"

section \<open>Tables\<close>

text \<open>
  The raw trade table has the seven columns of the schema given to \<open>scan_csv\<close>. With
  \<open>ignore_errors=True\<close> a field that does not parse becomes null, so every column is
  optional. \<open>Int64\<close> is a 64-bit word read as signed; \<open>Float64\<close> is idealised as
  \<^typ>\<open>real\<close> (no rounding, no NaN, no infinities).
\<close>

type_synonym int64 = "64 word"

record trade =
  agg_trade_id :: "int64 option"
  price :: "real option"
  quantity :: "real option"
  first_trade_id :: "int64 option"
  last_trade_id :: "int64 option"
  transact_time :: "int64 option"
  is_buyer_maker :: "bool option"

datatype categorical = Categorical string

text \<open>
  One row of the aggregated table: the window start (milliseconds since the epoch),
  the nine aggregates and the interval label. A Polars \<open>sum\<close> is never null.
\<close>

record kline =
  datetime :: int
  "open" :: "real option"
  high :: "real option"
  low :: "real option"
  close :: "real option"
  volume :: real
  quote_volume :: real
  num_trades :: "int64 option"
  taker_buy_volume :: real
  taker_buy_quote_volume :: real
  interval :: categorical

text \<open>
  A \<open>LazyFrame\<close> is a query that runs when it is written out. It is modelled as the
  result the query will have: the table, or the error raised when the query runs.
\<close>

type_synonym 'a lazy = "error + 'a"

section \<open>Polars expressions\<close>

text \<open>Arithmetic on columns gives null when an operand is null.\<close>

definition mul :: "real option \<Rightarrow> real option \<Rightarrow> real option" where
  "mul a b = (case (a, b) of (Some x, Some y) \<Rightarrow> Some (x * y) | _ \<Rightarrow> None)"

text \<open>\<open>first()\<close> and \<open>last()\<close> take the value of the first and last row, null or not.\<close>

definition pl_first :: "'a option list \<Rightarrow> 'a option" where
  "pl_first xs = (case xs of [] \<Rightarrow> None | x # _ \<Rightarrow> x)"

definition pl_last :: "'a option list \<Rightarrow> 'a option" where
  "pl_last xs = (case rev xs of [] \<Rightarrow> None | x # _ \<Rightarrow> x)"

text \<open>
  \<open>sum()\<close>, \<open>max()\<close> and \<open>min()\<close> skip nulls; the sum of no value is 0, the maximum
  and minimum of no value are null.
\<close>

fun non_null :: "'a option list \<Rightarrow> 'a list" where
  "non_null [] = []"
| "non_null (None # xs) = non_null xs"
| "non_null (Some x # xs) = x # non_null xs"

definition pl_sum :: "real option list \<Rightarrow> real" where
  "pl_sum xs = sum_list (non_null xs)"

definition pl_max :: "real option list \<Rightarrow> real option" where
  "pl_max xs = (case non_null xs of [] \<Rightarrow> None | y # ys \<Rightarrow> Some (fold max ys y))"

definition pl_min :: "real option list \<Rightarrow> real option" where
  "pl_min xs = (case non_null xs of [] \<Rightarrow> None | y # ys \<Rightarrow> Some (fold min ys y))"

section \<open>Interval Aggregator\<close>

text \<open>\<open>is_taker = 1 - pl.col("is_buyer_maker").cast(pl.Int8)\<close>\<close>

definition is_taker :: "trade \<Rightarrow> real option" where
  "is_taker r = map_option (\<lambda>b. 1 - (if b then 1 else 0)) (is_buyer_maker r)"

text \<open>The three expressions of \<open>join_to_interval\<close> that are built before the grouping.\<close>

definition num_trades_expr :: "trade list \<Rightarrow> int64 option" where
  "num_trades_expr g =
     (case (pl_last (map last_trade_id g), pl_first (map first_trade_id g)) of
        (Some l, Some f) \<Rightarrow> Some (l - f + 1)
      | _ \<Rightarrow> None)"

definition taker_buy_volume_expr :: "trade list \<Rightarrow> real" where
  "taker_buy_volume_expr g = pl_sum (map (\<lambda>r. mul (quantity r) (is_taker r)) g)"

definition taker_buy_quote_volume_expr :: "trade list \<Rightarrow> real" where
  "taker_buy_quote_volume_expr g =
     pl_sum (map (\<lambda>r. mul (mul (quantity r) (price r)) (is_taker r)) g)"

text \<open>The \<open>agg\<close> of one group, with the label added by the last \<open>with_columns\<close>.\<close>

definition agg :: "string \<Rightarrow> int \<Rightarrow> trade list \<Rightarrow> kline" where
  "agg ival start g =
     \<lparr>datetime = start,
      open = pl_first (map price g),
      high = pl_max (map price g),
      low = pl_min (map price g),
      close = pl_last (map price g),
      volume = pl_sum (map quantity g),
      quote_volume = pl_sum (map (\<lambda>r. mul (quantity r) (price r)) g),
      num_trades = num_trades_expr g,
      taker_buy_volume = taker_buy_volume_expr g,
      taker_buy_quote_volume = taker_buy_quote_volume_expr g,
      interval = Categorical ival\<rparr>"

text \<open>
  The width in milliseconds of the duration strings of \<open>process_interval\<close>, the only
  ones the program passes as \<open>every\<close>. Other duration strings are outside the model.
\<close>

definition process_interval :: "string list" where
  "process_interval = [''1m'', ''5m'', ''15m'', ''30m'', ''1h'']"

definition every_ms :: "string \<Rightarrow> int option" where
  "every_ms ival =
     (if ival = ''1m'' then Some 60000
      else if ival = ''5m'' then Some 300000
      else if ival = ''15m'' then Some 900000
      else if ival = ''30m'' then Some 1800000
      else if ival = ''1h'' then Some 3600000
      else None)"

text \<open>
  \<open>group_by_dynamic("datetime", every=interval)\<close> with its defaults: windows of width
  \<open>every\<close>, closed on the left, aligned to the epoch, labelled by their start. Polars
  refuses an index column that is not sorted (nulls first, then ascending) and then one
  that holds a null. It walks the sorted rows once: a row whose window is that of the
  group in progress joins it, another row opens a new group, so a window with no row
  gives no group.
\<close>

definition window_start :: "int \<Rightarrow> int \<Rightarrow> int" where
  "window_start every t = (t div every) * every"

definition nulls_first_le :: "int option \<Rightarrow> int option \<Rightarrow> bool" where
  "nulls_first_le a b =
     (case a of None \<Rightarrow> True | Some x \<Rightarrow> (case b of None \<Rightarrow> False | Some y \<Rightarrow> x \<le> y))"

definition datetime_col :: "trade list \<Rightarrow> int option list" where
  "datetime_col rows = map (\<lambda>r. map_option sint (transact_time r)) rows"

fun group_windows :: "int \<Rightarrow> (int \<times> 'a) list \<Rightarrow> (int \<times> 'a list) list" where
  "group_windows every [] = []"
| "group_windows every ((t, r) # rest) =
     (case group_windows every rest of
        [] \<Rightarrow> [(window_start every t, [r])]
      | (k, g) # gs \<Rightarrow>
          if k = window_start every t then (k, r # g) # gs
          else (window_start every t, [r]) # (k, g) # gs)"

definition group_by_dynamic :: "int \<Rightarrow> trade list \<Rightarrow> error + (int \<times> trade list) list" where
  "group_by_dynamic every rows =
     (if \<not> sorted_wrt nulls_first_le (datetime_col rows) then
        Inl (PolarsError ''argument in operation group_by_dynamic is not sorted'')
      else
        (case those (map (\<lambda>r. map_option (\<lambda>t. (sint t, r)) (transact_time r)) rows) of
           None \<Rightarrow> Inl (PolarsError ''null values in dynamic group_by not supported'')
         | Some timed \<Rightarrow> Inr (group_windows every timed)))"

definition join_to_interval :: "trade list lazy \<Rightarrow> string \<Rightarrow> kline list lazy" where
  "join_to_interval lf ival =
     (case lf of
        Inl e \<Rightarrow> Inl e
      | Inr rows \<Rightarrow>
          (case every_ms ival of
             None \<Rightarrow> Inl (PolarsError ''duration outside the model'')
           | Some every \<Rightarrow>
               (case group_by_dynamic every rows of
                  Inl e \<Rightarrow> Inl e
                | Inr groups \<Rightarrow> Inr (map (\<lambda>(start, g). agg ival start g) groups))))"

section \<open>The outside world\<close>

text \<open>
  What is written to a parquet file: the rows of a raw or of an aggregated table, each
  with the \<open>symbol\<close> and \<open>month\<close> columns that \<open>upload_to_hf\<close> adds.
\<close>

datatype frame = RawFrame "trade list" | KlineFrame "kline list"

datatype parquet =
    RawFile "(trade \<times> categorical \<times> categorical) list"
  | KlineFile "(kline \<times> categorical \<times> categorical) list"

type_synonym bytes = "8 word list"

text \<open>
  The libraries and services the program calls are parameters of the model:
  \<^item> \<open>files\<close>: the listing of the repository, read once when the module is loaded;
  \<^item> \<open>read_text\<close>: the text of a local file, as \<open>open(..., "r").read()\<close> gives it;
  \<^item> \<open>http_get\<close>: \<open>requests.get\<close> followed by \<open>raise_for_status\<close>;
  \<^item> \<open>scan_csv\<close>: opening the first entry of the archive (an error now) and parsing
    it with the schema (a lazy table, so an error of the parse comes later);
  \<^item> \<open>upload_file\<close>: the error, if any, of uploading to a path of the repository.
\<close>

record env =
  files :: "string list"
  read_text :: "string \<Rightarrow> error + string"
  http_get :: "string \<Rightarrow> error + bytes"
  scan_csv :: "bytes \<Rightarrow> error + trade list lazy"
  upload_file :: "string \<Rightarrow> error option"

text \<open>The calls that leave the process, in the order they are made.\<close>

datatype call =
    Download string
  | Extract bytes
  | Sink string
  | Upload string
  | Remove string

record state =
  remote :: "string \<Rightarrow> parquet option"
  local_files :: "string \<Rightarrow> parquet option"
  error_log :: string
  calls :: "call list"

section \<open>Archive Fetcher and Tabular Extractor\<close>

definition download_zip_file :: "env \<Rightarrow> string \<Rightarrow> state \<Rightarrow> (error + bytes) \<times> state" where
  "download_zip_file e u st = (http_get e u, st\<lparr>calls := calls st @ [Download u]\<rparr>)"

definition drop_nulls :: "trade list \<Rightarrow> trade list" where
  "drop_nulls rows = filter (\<lambda>r. agg_trade_id r \<noteq> None) rows"

definition content_to_lf ::
  "env \<Rightarrow> bytes \<Rightarrow> state \<Rightarrow> (error + trade list lazy) \<times> state" where
  "content_to_lf e content st =
     (map_sum id (map_sum id drop_nulls) (scan_csv e content),
      st\<lparr>calls := calls st @ [Extract content]\<rparr>)"

section \<open>Publish Gateway\<close>

text \<open>The \<open>with_columns\<close> of \<open>upload_to_hf\<close>: a new table; the argument is not changed.\<close>

fun with_columns :: "frame \<Rightarrow> string \<Rightarrow> string \<Rightarrow> parquet" where
  "with_columns (RawFrame rows) symb month =
     RawFile (map (\<lambda>r. (r, Categorical symb, Categorical month)) rows)"
| "with_columns (KlineFrame rows) symb month =
     KlineFile (map (\<lambda>r. (r, Categorical symb, Categorical month)) rows)"

text \<open>
  \<open>sink_parquet\<close> runs the lazy query: its error, if it has one, is raised there,
  before anything is uploaded. An upload that fails leaves the local file behind.
\<close>

definition upload_to_hf ::
  "env \<Rightarrow> string \<Rightarrow> frame lazy \<Rightarrow> string \<Rightarrow> string \<Rightarrow> bool \<Rightarrow> state \<Rightarrow> (error + unit) \<times> state" where
  "upload_to_hf e out_path lf symb month skip_exist st =
     (if skip_exist \<and> out_path \<in> set (files e) then (Inr (), st)
      else
        (case lf of
           Inl err \<Rightarrow> (Inl err, st\<lparr>calls := calls st @ [Sink out_path]\<rparr>)
         | Inr t \<Rightarrow>
             let obj = with_columns t symb month;
                 st1 = st\<lparr>local_files := (local_files st)(out_path \<mapsto> obj),
                          calls := calls st @ [Sink out_path]\<rparr>
             in (case upload_file e out_path of
                   Some err \<Rightarrow> (Inl err, st1\<lparr>calls := calls st1 @ [Upload out_path]\<rparr>)
                 | None \<Rightarrow>
                     (Inr (),
                      st1\<lparr>remote := (remote st1)(out_path \<mapsto> obj),
                          local_files := (local_files st1)(out_path := None),
                          calls := calls st1 @ [Upload out_path, Remove out_path]\<rparr>))))"

section \<open>Pipeline Driver\<close>

text \<open>The \<open>for interval in process_interval\<close> loop of \<open>process_one_url\<close>.\<close>

fun process_intervals ::
  "env \<Rightarrow> trade list lazy \<Rightarrow> parsed_url \<Rightarrow> string list \<Rightarrow> state \<Rightarrow> (error + unit) \<times> state" where
  "process_intervals e lf res [] st = (Inr (), st)"
| "process_intervals e lf res (ival # rest) st =
     (let interval_lf = join_to_interval lf ival;
          out_path = get_kline_out_path (symbol res) (month_str res) ival
      in (case upload_to_hf e out_path (map_sum id KlineFrame interval_lf)
                 (symbol res) (month_str res) True st of
            (Inl err, st') \<Rightarrow> (Inl err, st')
          | (Inr _, st') \<Rightarrow> process_intervals e lf res rest st'))"

definition process_one_url :: "env \<Rightarrow> string \<Rightarrow> state \<Rightarrow> (error + unit) \<times> state" where
  "process_one_url e u st =
     (case parse_url u of
        Inl err \<Rightarrow> (Inl err, st)
      | Inr parse_res \<Rightarrow>
          let out_path = get_agg_trade_out_path (symbol parse_res) (month_str parse_res)
          in if out_path \<in> set (files e) then (Inr (), st)
             else
               (case download_zip_file e u st of
                  (Inl err, st1) \<Rightarrow> (Inl err, st1)
                | (Inr content, st1) \<Rightarrow>
                    (case content_to_lf e content st1 of
                       (Inl err, st2) \<Rightarrow> (Inl err, st2)
                     | (Inr lf, st2) \<Rightarrow>
                         (case upload_to_hf e out_path (map_sum id RawFrame lf)
                                 (symbol parse_res) (month_str parse_res) True st2 of
                            (Inl err, st3) \<Rightarrow> (Inl err, st3)
                          | (Inr _, st3) \<Rightarrow>
                              process_intervals e lf parse_res process_interval st3))))"




text \<open>The entry written to \<open>error.log\<close> for a URL that failed.\<close>

definition log_entry :: "string \<Rightarrow> error \<Rightarrow> string" where
  "log_entry u err = u @ [CHR 0x0A] @ ''Error: '' @ str err @ [CHR 0x0A]"

text \<open>The \<open>for url in urls\<close> loop with its \<open>try\<close>.\<close>

fun run_urls :: "env \<Rightarrow> string list \<Rightarrow> state \<Rightarrow> state" where
  "run_urls e [] st = st"
| "run_urls e (u # us) st =
     (case process_one_url e u st of
        (Inr _, st') \<Rightarrow> run_urls e us st'
      | (Inl err, st') \<Rightarrow>
          run_urls e us (st'\<lparr>error_log := error_log st' @ log_entry u err\<rparr>))"


section \<open>Reference definitions and example inputs\<close>

text \<open>
  The filename contract \<open><SYMBOL>-aggTrades-<YYYY>-<MM>.zip\<close> asks for digits in the
  year and the month; "the extension stripped" is read as removing a final \<open>.zip\<close>.
\<close>

definition is_digit :: "char \<Rightarrow> bool" where
  "is_digit c = (c \<in> set ''0123456789'')"

definition strip_extension :: "string \<Rightarrow> string" where
  "strip_extension s = (if endswith s ''.zip'' then take (length s - 4) s else s)"

definition btc_url :: string where
  "btc_url = ''https://data.binance.vision/data/futures/um/monthly/aggTrades/BTCUSDT/BTCUSDT-aggTrades-2024-01.zip''"

definition busd_url :: string where
  "busd_url = ''https://data.binance.vision/data/futures/um/monthly/aggTrades/BTCBUSD/BTCBUSD-aggTrades-2024-01.zip''"

text \<open>A world with an empty repository in which every download fails.\<close>

definition offline_env :: env where
  "offline_env =
     \<lparr>files = [],
      read_text = (\<lambda>_. Inl (OSError ''No such file or directory'')),
      http_get = (\<lambda>_. Inl (RequestException ''404 Client Error'')),
      scan_csv = (\<lambda>_. Inl (ArchiveError ''File is not a zip file'')),
      upload_file = (\<lambda>_. None)\<rparr>"

text \<open>A world whose repository already holds the raw table of \<open>btc_url\<close>.\<close>

definition published_env :: env where
  "published_env = offline_env\<lparr>files := [''agg_trades/symbol=BTCUSDT/month=2024-01/data.parquet'']\<rparr>"






definition start_state :: state where
  "start_state = \<lparr>remote = Map.empty, local_files = Map.empty, error_log = [], calls = []\<rparr>"

text \<open>A row of the trade table whose fields all parsed, but for \<open>is_buyer_maker\<close>.\<close>

definition trade_row ::
  "int64 \<Rightarrow> real \<Rightarrow> real \<Rightarrow> int64 \<Rightarrow> int64 \<Rightarrow> int64 \<Rightarrow> bool option \<Rightarrow> trade" where
  "trade_row i p q f l t b =
     \<lparr>agg_trade_id = Some i, price = Some p, quantity = Some q, first_trade_id = Some f,
      last_trade_id = Some l, transact_time = Some t, is_buyer_maker = b\<rparr>"

text \<open>
  Three trades in the first minute after the epoch, the second with a null
  \<open>is_buyer_maker\<close>, and one trade two hours later.
\<close>

definition minute_rows :: "trade list" where
  "minute_rows =
     [trade_row 1 100 1 10 12 0 (Some False),
      trade_row 2 102 2 13 13 30000 None,
      trade_row 3 101 3 14 15 59999 (Some True)]"

definition sample_rows :: "trade list" where
  "sample_rows = minute_rows @ [trade_row 4 99 4 16 20 7200000 (Some False)]"


text \<open>
  A world with an empty repository that serves an archive for every URL; its table is
  \<open>sample_rows\<close> and one more row without \<open>agg_trade_id\<close>.
\<close>

definition serving_env :: env where
  "serving_env =
     \<lparr>files = [],
      read_text = (\<lambda>_. Inr btc_url),
      http_get = (\<lambda>_. Inr [0x50, 0x4B]),
      scan_csv = (\<lambda>_. Inr (Inr (sample_rows
                   @ [(trade_row 0 1 1 1 1 7200001 None)\<lparr>agg_trade_id := None\<rparr>]))),
      upload_file = (\<lambda>_. None)\<rparr>"

definition raw_path :: string where
  "raw_path = ''agg_trades/symbol=BTCUSDT/month=2024-01/data.parquet''"

text \<open>The state after one and after two calls of \<open>upload_to_hf\<close> for the same path.\<close>

definition published_once :: state where
  "published_once =
     snd (upload_to_hf serving_env raw_path (Inr (RawFrame sample_rows))
            ''BTCUSDT'' ''2024-01'' True start_state)"

definition published_twice :: state where
  "published_twice =
     snd (upload_to_hf serving_env raw_path (Inr (RawFrame sample_rows))
            ''BTCUSDT'' ''2024-01'' True published_once)"


text \<open>The state after \<open>btc_url\<close> has been processed in the serving world.\<close>

definition served_state :: state where
  "served_state = snd (process_one_url serving_env btc_url start_state)"


section \<open>Properties of the URL Parser\<close>

lemma split_not_Nil: "split sep s \<noteq> []"
  by (induction s) (auto split: list.splits)

lemma split_no_sep: "sep \<notin> set s \<Longrightarrow> split sep s = [s]"
  by (induction s) auto

lemma split_append_sep: "sep \<notin> set a \<Longrightarrow> split sep (a @ sep # b) = a # split sep b"
  by (induction a) auto

lemma split_append_sep_shape:
  "\<exists>l ls. split sep (a @ sep # b) = l # ls \<and> ls \<noteq> [] \<and> last ls = last (split sep b)"
proof (induction a)
  case Nil
  show ?case by (simp add: split_not_Nil)
next
  case (Cons c a)
  then obtain l ls where "split sep (a @ sep # b) = l # ls" "ls \<noteq> []"
    "last ls = last (split sep b)" by blast
  then show ?case by simp
qed

lemma last_split_append_sep: "last (split sep (a @ sep # b)) = last (split sep b)"
  using split_append_sep_shape [of sep a b] by auto

lemma contains_appendI: "contains sub b \<Longrightarrow> contains sub (a @ b)"
  by (induction a) auto

lemma contains_prefixI: "prefix sub s \<Longrightarrow> contains sub s"
  by (cases s) auto

lemma replace_zip_ext: "CHR ''.'' \<notin> set s \<Longrightarrow> replace ''.zip'' [] (s @ ''.zip'') = s"
  by (induction s) (auto simp: prefix_Cons)

lemma digit_not_sep:
  "is_digit c \<Longrightarrow> c \<noteq> CHR ''-'' \<and> c \<noteq> CHR ''/'' \<and> c \<noteq> CHR ''.''"
  by (auto simp: is_digit_def)

lemma split_contract_name:
  assumes "CHR ''-'' \<notin> set s" "CHR ''-'' \<notin> set yyyy" "CHR ''-'' \<notin> set mm"
  shows "split CHR ''-'' (s @ ''-aggTrades-'' @ yyyy @ ''-'' @ mm @ ''.zip'')
           = [s, ''aggTrades'', yyyy, mm @ ''.zip'']"
proof -
  have 1: "split CHR ''-'' (mm @ ''.zip'') = [mm @ ''.zip'']"
    using assms(3) by (intro split_no_sep) simp
  have 2: "split CHR ''-'' (yyyy @ CHR ''-'' # mm @ ''.zip'') = [yyyy, mm @ ''.zip'']"
    by (simp only: split_append_sep [OF assms(2)] 1)
  have a: "CHR ''-'' \<notin> set ''aggTrades''" by simp
  have 3: "split CHR ''-'' (''aggTrades'' @ CHR ''-'' # yyyy @ CHR ''-'' # mm @ ''.zip'')
              = [''aggTrades'', yyyy, mm @ ''.zip'']"
    by (simp only: split_append_sep [OF a] 2)
  have 4: "split CHR ''-'' (s @ CHR ''-'' # ''aggTrades'' @ CHR ''-'' # yyyy @ CHR ''-'' # mm @ ''.zip'')
             = [s, ''aggTrades'', yyyy, mm @ ''.zip'']"
    by (simp only: split_append_sep [OF assms(1)] 3)
  have "s @ ''-aggTrades-'' @ yyyy @ ''-'' @ mm @ ''.zip''
         = s @ CHR ''-'' # ''aggTrades'' @ CHR ''-'' # yyyy @ CHR ''-'' # mm @ ''.zip''"
    by simp
  then show ?thesis using 4 by (simp only:)
qed

lemma contains_contract_name:
  "contains ''aggTrades'' (base @ ''/'' @ s @ ''-aggTrades-'' @ rest)"
proof -
  have "contains ''aggTrades'' (''aggTrades'' @ ''-'' @ rest)"
    by (intro contains_prefixI) simp
  then have "contains ''aggTrades'' ((base @ ''/'' @ s @ ''-'') @ (''aggTrades'' @ ''-'' @ rest))"
    by (rule contains_appendI)
  then show ?thesis by simp
qed

lemma month_of_tokens:
  assumes "CHR ''.'' \<notin> set yyyy" "CHR ''.'' \<notin> set mm"
  shows "replace ''.zip'' [] (join ''-'' (last_two [s, ''aggTrades'', yyyy, mm @ ''.zip'']))
           = yyyy @ ''-'' @ mm"
proof -
  have "join ''-'' (last_two [s, ''aggTrades'', yyyy, mm @ ''.zip'']) = (yyyy @ ''-'' @ mm) @ ''.zip''"
    by (simp add: last_two_def)
  moreover have "CHR ''.'' \<notin> set (yyyy @ ''-'' @ mm)"
    using assms by simp
  then have "replace ''.zip'' [] ((yyyy @ ''-'' @ mm) @ ''.zip'') = yyyy @ ''-'' @ mm"
    by (rule replace_zip_ext)
  ultimately show ?thesis by (simp only:)
qed

lemma strip_of_tokens:
  "strip_extension (join ''-'' (last_two [s, ''aggTrades'', yyyy, mm @ ''.zip'']))
     = yyyy @ ''-'' @ mm"
  by (simp add: last_two_def strip_extension_def endswith_def)

text \<open>
  C3. A URL that lacks \<open>aggTrades\<close>, \<open>futures\<close> or \<open>monthly\<close>, or whose symbol (the
  text of the file name before its first hyphen) does not end with \<open>USDT\<close>, makes
  \<open>parse_url\<close> raise a \<open>ValueError\<close>; \<open>process_one_url\<close> raises the same error and
  leaves the state as it was, so no download, extraction or upload is made for it.
\<close>

theorem parse_url_invalid:
  assumes "\<not> contains ''aggTrades'' u \<or> \<not> contains ''futures'' u \<or> \<not> contains ''monthly'' u
           \<or> \<not> endswith (hd (split CHR ''-'' (last (split CHR ''/'' u)))) ''USDT''"
  shows "\<exists>m. parse_url u = Inl (ValueError m)
           \<and> process_one_url e u st = (Inl (ValueError m), st)"
  using assms by (auto simp: parse_url_def process_one_url_def Let_def)

theorem parse_url_invalid_witness:
  "\<not> endswith (hd (split CHR ''-'' (last (split CHR ''/'' busd_url)))) ''USDT''
   \<and> (\<exists>m. parse_url busd_url = Inl (ValueError m)
          \<and> process_one_url offline_env busd_url start_state = (Inl (ValueError m), start_state))"
proof -
  have n: "\<not> endswith (hd (split CHR ''-'' (last (split CHR ''/'' busd_url)))) ''USDT''"
    by code_simp
  then have h: "\<not> contains ''aggTrades'' busd_url \<or> \<not> contains ''futures'' busd_url
      \<or> \<not> contains ''monthly'' busd_url
      \<or> \<not> endswith (hd (split CHR ''-'' (last (split CHR ''/'' busd_url)))) ''USDT''"
    by blast
  show ?thesis
    using n parse_url_invalid [OF h, of offline_env start_state] by blast
qed

text \<open>
  C4. For a valid URL whose file name is \<open><SYMBOL>-aggTrades-<YYYY>-<MM>.zip\<close> (a
  symbol without hyphen or slash, a year and a month of digits), \<open>parse_url\<close> succeeds,
  \<open>symbol\<close> is the first hyphen-delimited token of the file name, and \<open>month_str\<close> is
  the last two tokens joined by a hyphen with the final \<open>.zip\<close> removed: \<open>YYYY-MM\<close>.
\<close>

theorem parse_url_contract:
  assumes shape: "u = base @ ''/'' @ s @ ''-aggTrades-'' @ yyyy @ ''-'' @ mm @ ''.zip''"
    and s: "CHR ''-'' \<notin> set s" "CHR ''/'' \<notin> set s"
    and y: "length yyyy = 4" "\<forall>c \<in> set yyyy. is_digit c"
    and m: "length mm = 2" "\<forall>c \<in> set mm. is_digit c"
    and valid: "contains ''futures'' u" "contains ''monthly'' u" "endswith s ''USDT''"
  shows "\<exists>res. parse_url u = Inr res
           \<and> file_name res = s @ ''-aggTrades-'' @ yyyy @ ''-'' @ mm @ ''.zip''
           \<and> symbol res = hd (split CHR ''-'' (file_name res))
           \<and> symbol res = s
           \<and> month_str res
               = strip_extension (join ''-'' (last_two (split CHR ''-'' (file_name res))))
           \<and> month_str res = yyyy @ ''-'' @ mm"
proof -
  define fname where "fname = s @ ''-aggTrades-'' @ yyyy @ ''-'' @ mm @ ''.zip''"
  have dy: "CHR ''-'' \<notin> set yyyy" "CHR ''/'' \<notin> set yyyy" "CHR ''.'' \<notin> set yyyy"
    using y(2) digit_not_sep by blast+
  have dm: "CHR ''-'' \<notin> set mm" "CHR ''/'' \<notin> set mm" "CHR ''.'' \<notin> set mm"
    using m(2) digit_not_sep by blast+
  have nosl: "CHR ''/'' \<notin> set fname"
    using s(2) dy(2) dm(2) by (simp add: fname_def)
  have u: "u = base @ CHR ''/'' # fname" by (simp add: shape fname_def)
  have fn: "last (split CHR ''/'' u) = fname"
    unfolding u last_split_append_sep using split_no_sep [OF nosl] by simp
  have toks: "split CHR ''-'' fname = [s, ''aggTrades'', yyyy, mm @ ''.zip'']"
    unfolding fname_def by (rule split_contract_name [OF s(1) dy(1) dm(1)])
  have agg: "contains ''aggTrades'' u"
    unfolding shape by (rule contains_contract_name)
  have month: "replace ''.zip'' [] (join ''-'' (last_two (split CHR ''-'' fname)))
                 = yyyy @ ''-'' @ mm"
    unfolding toks by (rule month_of_tokens [OF dy(3) dm(3)])
  have strip: "strip_extension (join ''-'' (last_two (split CHR ''-'' fname)))
                 = yyyy @ ''-'' @ mm"
    unfolding toks by (rule strip_of_tokens)
  have sym: "hd (split CHR ''-'' fname) = s" by (simp add: toks)
  have "parse_url u = Inr \<lparr>url = u, file_name = fname, symbol = s, month_str = yyyy @ ''-'' @ mm\<rparr>"
    using agg valid(1,2) valid(3) by (simp add: parse_url_def Let_def fn sym month)
  moreover have "fname = s @ ''-aggTrades-'' @ yyyy @ ''-'' @ mm @ ''.zip''"
    by (simp add: fname_def)
  ultimately show ?thesis
    using sym strip by simp
qed

theorem parse_url_contract_witness:
  "btc_url = ''https://data.binance.vision/data/futures/um/monthly/aggTrades/BTCUSDT''
       @ ''/'' @ ''BTCUSDT'' @ ''-aggTrades-'' @ ''2024'' @ ''-'' @ ''01'' @ ''.zip''
   \<and> contains ''futures'' btc_url \<and> contains ''monthly'' btc_url
   \<and> endswith ''BTCUSDT'' ''USDT''
   \<and> (\<exists>res. parse_url btc_url = Inr res
          \<and> file_name res = ''BTCUSDT-aggTrades-2024-01.zip''
          \<and> symbol res = hd (split CHR ''-'' (file_name res))
          \<and> symbol res = ''BTCUSDT''
          \<and> month_str res
              = strip_extension (join ''-'' (last_two (split CHR ''-'' (file_name res))))
          \<and> month_str res = ''2024-01'')"
proof -
  have shape: "btc_url = ''https://data.binance.vision/data/futures/um/monthly/aggTrades/BTCUSDT''
       @ ''/'' @ ''BTCUSDT'' @ ''-aggTrades-'' @ ''2024'' @ ''-'' @ ''01'' @ ''.zip''"
    by (simp add: btc_url_def)
  have fut: "contains ''futures'' btc_url" by code_simp
  have mon: "contains ''monthly'' btc_url" by code_simp
  have usdt: "endswith ''BTCUSDT'' ''USDT''" by code_simp
  have "\<exists>res. parse_url btc_url = Inr res
          \<and> file_name res = ''BTCUSDT'' @ ''-aggTrades-'' @ ''2024'' @ ''-'' @ ''01'' @ ''.zip''
          \<and> symbol res = hd (split CHR ''-'' (file_name res))
          \<and> symbol res = ''BTCUSDT''
          \<and> month_str res
              = strip_extension (join ''-'' (last_two (split CHR ''-'' (file_name res))))
          \<and> month_str res = ''2024'' @ ''-'' @ ''01''"
    by (rule parse_url_contract [OF shape _ _ _ _ _ _ fut mon usdt])
       (simp_all add: is_digit_def)
  then have "\<exists>res. parse_url btc_url = Inr res
          \<and> file_name res = ''BTCUSDT-aggTrades-2024-01.zip''
          \<and> symbol res = hd (split CHR ''-'' (file_name res))
          \<and> symbol res = ''BTCUSDT''
          \<and> month_str res
              = strip_extension (join ''-'' (last_two (split CHR ''-'' (file_name res))))
          \<and> month_str res = ''2024-01''"
    by simp
  with shape fut mon usdt show ?thesis by blast
qed

section \<open>Properties of the Pipeline Driver\<close>

lemma upload_to_hf_error_log:
  "error_log (snd (upload_to_hf e p lf sy mo sk st)) = error_log st"
  by (simp add: upload_to_hf_def Let_def split: sum.splits option.splits)

lemma process_intervals_error_log:
  "error_log (snd (process_intervals e lf res ivs st)) = error_log st"
proof (induction ivs arbitrary: st)
  case Nil
  show ?case by simp
next
  case (Cons i ivs)
  show ?case
    using Cons.IH upload_to_hf_error_log
      [of e "get_kline_out_path (symbol res) (month_str res) i"
          "map_sum id KlineFrame (join_to_interval lf i)" "symbol res" "month_str res" True st]
    by (auto simp: Let_def split: prod.splits sum.splits)
qed

lemma process_one_url_error_log:
  "error_log (snd (process_one_url e u st)) = error_log st"
proof -
  have up: "error_log (snd (upload_to_hf e p lf sy mo True st2)) = error_log st"
    if "error_log st2 = error_log st" for p lf sy mo st2
    using that by (simp add: upload_to_hf_error_log)
  show ?thesis
    unfolding process_one_url_def download_zip_file_def content_to_lf_def Let_def
    apply (simp split: sum.splits prod.splits)
    apply (intro allI impI conjI)
      apply (auto dest!: arg_cong [where f = "\<lambda>p. error_log (snd p)"]
                  simp: upload_to_hf_error_log process_intervals_error_log)
    done
qed

lemma run_urls_append: "run_urls e (us @ vs) st = run_urls e vs (run_urls e us st)"
  by (induction us arbitrary: st) (auto split: prod.splits sum.splits)

lemma run_urls_error_log_prefix: "\<exists>later. error_log (run_urls e us st) = error_log st @ later"
proof (induction us arbitrary: st)
  case Nil
  show ?case by simp
next
  case (Cons u us)
  obtain r st' where p: "process_one_url e u st = (r, st')" by (cases "process_one_url e u st")
  then have el: "error_log st' = error_log st"
    using process_one_url_error_log [of e u st] by simp
  show ?case
  proof (cases r)
    case (Inl err)
    obtain later where
      "error_log (run_urls e us (st'\<lparr>error_log := error_log st' @ log_entry u err\<rparr>))
         = error_log (st'\<lparr>error_log := error_log st' @ log_entry u err\<rparr>) @ later"
      using Cons.IH by blast
    then show ?thesis using p Inl el by simp
  next
    case (Inr x)
    obtain later where "error_log (run_urls e us st') = error_log st' @ later"
      using Cons.IH by blast
    then show ?thesis using p Inr el by simp
  qed
qed

lemma parse_btc_url:
  "parse_url btc_url
     = Inr \<lparr>url = btc_url, file_name = ''BTCUSDT-aggTrades-2024-01.zip'',
            symbol = ''BTCUSDT'', month_str = ''2024-01''\<rparr>"
  by code_simp

text \<open>
  C6. When the raw output path of a URL is in the snapshot \<open>files\<close>, \<open>process_one_url\<close>
  returns at once: the state is unchanged, so nothing is downloaded, extracted, written
  or uploaded for that URL.
\<close>

theorem skip_existing_raw:
  assumes "parse_url u = Inr res"
    and "get_agg_trade_out_path (symbol res) (month_str res) \<in> set (files e)"
  shows "process_one_url e u st = (Inr (), st)"
  using assms by (simp add: process_one_url_def Let_def)

theorem skip_existing_raw_witness:
  "parse_url btc_url
     = Inr \<lparr>url = btc_url, file_name = ''BTCUSDT-aggTrades-2024-01.zip'',
            symbol = ''BTCUSDT'', month_str = ''2024-01''\<rparr>
   \<and> ''agg_trades/symbol=BTCUSDT/month=2024-01/data.parquet'' \<in> set (files published_env)
   \<and> process_one_url published_env btc_url start_state = (Inr (), start_state)"
proof -
  have m: "get_agg_trade_out_path
             (symbol \<lparr>url = btc_url, file_name = ''BTCUSDT-aggTrades-2024-01.zip'',
                      symbol = ''BTCUSDT'', month_str = ''2024-01''\<rparr>)
             (month_str \<lparr>url = btc_url, file_name = ''BTCUSDT-aggTrades-2024-01.zip'',
                         symbol = ''BTCUSDT'', month_str = ''2024-01''\<rparr>)
           \<in> set (files published_env)"
    by (simp add: get_agg_trade_out_path_def published_env_def)
  have f: "''agg_trades/symbol=BTCUSDT/month=2024-01/data.parquet'' \<in> set (files published_env)"
    by (simp add: published_env_def)
  show ?thesis
    using parse_btc_url f skip_existing_raw [OF parse_btc_url m, of start_state] by simp
qed

lemma download_fails_offline:
  "process_one_url offline_env btc_url st
     = (Inl (RequestException ''404 Client Error''), st\<lparr>calls := calls st @ [Download btc_url]\<rparr>)"
  by (simp add: process_one_url_def parse_btc_url Let_def get_agg_trade_out_path_def
        offline_env_def download_zip_file_def)

text \<open>
  C7. A URL whose processing raises does not end the loop: \<open><url>\nError: <message>\n\<close>
  is appended to the error log, the rest of the list is run from the state so reached,
  and the entry is still in the log when the list is finished. The loop is a total
  function of the list, so it comes to the end of every list.
\<close>

theorem fault_isolation:
  assumes "process_one_url e u (run_urls e us st) = (Inl err, st')"
  shows "run_urls e (us @ u # vs) st
           = run_urls e vs
               (st'\<lparr>error_log := error_log (run_urls e us st)
                                   @ u @ [CHR 0x0A] @ ''Error: '' @ str err @ [CHR 0x0A]\<rparr>)
         \<and> (\<exists>later. error_log (run_urls e (us @ u # vs) st)
                = error_log (run_urls e us st)
                    @ u @ [CHR 0x0A] @ ''Error: '' @ str err @ [CHR 0x0A] @ later)"
proof -
  have el: "error_log st' = error_log (run_urls e us st)"
    using process_one_url_error_log [of e u "run_urls e us st"] assms by simp
  have step: "run_urls e (us @ u # vs) st
           = run_urls e vs
               (st'\<lparr>error_log := error_log (run_urls e us st)
                                   @ u @ [CHR 0x0A] @ ''Error: '' @ str err @ [CHR 0x0A]\<rparr>)"
    using assms el by (simp add: run_urls_append log_entry_def)
  obtain later where
    "error_log (run_urls e vs
               (st'\<lparr>error_log := error_log (run_urls e us st)
                                   @ u @ [CHR 0x0A] @ ''Error: '' @ str err @ [CHR 0x0A]\<rparr>))
       = error_log (st'\<lparr>error_log := error_log (run_urls e us st)
                                   @ u @ [CHR 0x0A] @ ''Error: '' @ str err @ [CHR 0x0A]\<rparr>) @ later"
    using run_urls_error_log_prefix by blast
  then have "error_log (run_urls e (us @ u # vs) st)
                = error_log (run_urls e us st)
                    @ u @ [CHR 0x0A] @ ''Error: '' @ str err @ [CHR 0x0A] @ later"
    using step by simp
  then show ?thesis using step by blast
qed

theorem fault_isolation_witness:
  "process_one_url offline_env btc_url (run_urls offline_env [busd_url] start_state)
     = (Inl (RequestException ''404 Client Error''),
        (run_urls offline_env [busd_url] start_state)
          \<lparr>calls := calls (run_urls offline_env [busd_url] start_state) @ [Download btc_url]\<rparr>)
   \<and> run_urls offline_env ([busd_url] @ btc_url # [busd_url]) start_state
       = run_urls offline_env [busd_url]
           ((run_urls offline_env [busd_url] start_state)
              \<lparr>calls := calls (run_urls offline_env [busd_url] start_state) @ [Download btc_url],
               error_log := error_log (run_urls offline_env [busd_url] start_state)
                  @ btc_url @ [CHR 0x0A] @ ''Error: '' @ ''404 Client Error'' @ [CHR 0x0A]\<rparr>)"
proof -
  have h: "process_one_url offline_env btc_url (run_urls offline_env [busd_url] start_state)
     = (Inl (RequestException ''404 Client Error''),
        (run_urls offline_env [busd_url] start_state)
          \<lparr>calls := calls (run_urls offline_env [busd_url] start_state) @ [Download btc_url]\<rparr>)"
    by (rule download_fails_offline)
  show ?thesis
    using h fault_isolation [OF h, of "[busd_url]"] by simp
qed










section \<open>Properties of the Publish Gateway\<close>

lemma upload_skip:
  "p \<in> set (files e) \<Longrightarrow> upload_to_hf e p lf s m True st = (Inr (), st)"
  by (simp add: upload_to_hf_def)

lemma upload_done:
  assumes "p \<notin> set (files e)" "upload_file e p = None"
  shows "upload_to_hf e p (Inr t) s m True st
           = (Inr (),
              st\<lparr>local_files := (local_files st)(p \<mapsto> with_columns t s m),
                 calls := calls st @ [Sink p],
                 remote := (remote st)(p \<mapsto> with_columns t s m),
                 local_files := ((local_files st)(p \<mapsto> with_columns t s m))(p := None),
                 calls := (calls st @ [Sink p]) @ [Upload p, Remove p]\<rparr>)"
  using assms by (simp add: upload_to_hf_def Let_def)

text \<open>
  C2. Two calls of \<open>upload_to_hf\<close> with the same path and \<open>skip_exist=True\<close>. The listing
  \<open>files\<close> is read once and never updated, so within one run the two calls see the same
  listing: when it holds the path, neither call uploads and the state is unchanged; when
  it does not and the upload succeeds, the first call writes, uploads and removes the
  file, and so does the second, which stores the same object again and so leaves the
  remote store as it was. A call made under a listing that holds the path, as a later run
  reads it after the first upload, is a no-op that leaves the state unchanged.
\<close>

theorem publish_twice:
  assumes "upload_to_hf e p (Inr t) s m True st = (r1, st1)"
  shows "(p \<in> set (files e) \<longrightarrow>
            r1 = Inr () \<and> st1 = st \<and> upload_to_hf e p (Inr t) s m True st1 = (Inr (), st1))
       \<and> (p \<notin> set (files e) \<and> upload_file e p = None \<longrightarrow>
            r1 = Inr ()
            \<and> calls st1 = calls st @ [Sink p, Upload p, Remove p]
            \<and> remote st1 p = Some (with_columns t s m)
            \<and> (\<exists>st2. upload_to_hf e p (Inr t) s m True st1 = (Inr (), st2)
                   \<and> calls st2 = calls st1 @ [Sink p, Upload p, Remove p]
                   \<and> remote st2 = remote st1)
            \<and> (\<forall>e'. p \<in> set (files e') \<longrightarrow>
                   upload_to_hf e' p (Inr t) s m True st1 = (Inr (), st1)))"
proof (intro conjI impI)
  assume "p \<in> set (files e)"
  then show "r1 = Inr ()" "st1 = st" "upload_to_hf e p (Inr t) s m True st1 = (Inr (), st1)"
    using assms by (simp_all add: upload_skip)
next
  assume a: "p \<notin> set (files e) \<and> upload_file e p = None"
  then have np: "p \<notin> set (files e)" and ok: "upload_file e p = None" by simp_all
  note first = upload_done [OF np ok, of t s m st]
  show "r1 = Inr ()" using assms first by simp
  show c1: "calls st1 = calls st @ [Sink p, Upload p, Remove p]" using assms first by auto
  show "remote st1 p = Some (with_columns t s m)" using assms first by auto
  note second = upload_done [OF np ok, of t s m st1]
  have "remote st1 = (remote st)(p \<mapsto> with_columns t s m)" using assms first by auto
  then show "\<exists>st2. upload_to_hf e p (Inr t) s m True st1 = (Inr (), st2)
                   \<and> calls st2 = calls st1 @ [Sink p, Upload p, Remove p]
                   \<and> remote st2 = remote st1"
    using second by simp
  show "\<forall>e'. p \<in> set (files e') \<longrightarrow> upload_to_hf e' p (Inr t) s m True st1 = (Inr (), st1)"
    by (simp add: upload_skip)
qed

lemma published_once_eq:
  "upload_to_hf serving_env raw_path (Inr (RawFrame sample_rows)) ''BTCUSDT'' ''2024-01'' True
     start_state = (Inr (), published_once)"
  by (simp add: published_once_def upload_to_hf_def serving_env_def Let_def)

theorem publish_twice_counterexample:
  "calls published_once = [Sink raw_path, Upload raw_path, Remove raw_path]
   \<and> calls published_twice
       = [Sink raw_path, Upload raw_path, Remove raw_path,
          Sink raw_path, Upload raw_path, Remove raw_path]
   \<and> published_twice \<noteq> published_once"
proof -
  have 1: "calls published_once = [Sink raw_path, Upload raw_path, Remove raw_path]"
    by (simp add: published_once_def upload_to_hf_def serving_env_def Let_def start_state_def)
  have 2: "calls published_twice = calls published_once @ [Sink raw_path, Upload raw_path, Remove raw_path]"
    by (simp add: published_twice_def upload_to_hf_def serving_env_def Let_def)
  have "calls published_twice \<noteq> calls published_once" using 1 2 by simp
  then have "published_twice \<noteq> published_once" by auto
  with 1 2 show ?thesis by simp
qed

theorem publish_twice_witness:
  "raw_path \<notin> set (files serving_env) \<and> upload_file serving_env raw_path = None
   \<and> raw_path \<in> set (files published_env)
   \<and> calls published_once = calls start_state @ [Sink raw_path, Upload raw_path, Remove raw_path]
   \<and> remote published_once raw_path
        = Some (with_columns (RawFrame sample_rows) ''BTCUSDT'' ''2024-01'')
   \<and> upload_to_hf published_env raw_path (Inr (RawFrame sample_rows)) ''BTCUSDT'' ''2024-01'' True
        published_once = (Inr (), published_once)"
proof -
  have a: "raw_path \<notin> set (files serving_env)" "upload_file serving_env raw_path = None"
    by (simp_all add: serving_env_def)
  have b: "raw_path \<in> set (files published_env)"
    by (simp add: published_env_def raw_path_def)
  show ?thesis
    using a b publish_twice [OF published_once_eq] by simp
qed

section \<open>The table seen by the aggregations\<close>

lemma upload_to_hf_remote_other:
  "q \<noteq> p \<Longrightarrow> remote (snd (upload_to_hf e p lf s m sk st)) q = remote st q"
  by (simp add: upload_to_hf_def Let_def split: sum.splits option.splits)

lemma kline_path_inj:
  "get_kline_out_path s m i = get_kline_out_path s m j \<Longrightarrow> i = j"
  by (simp add: get_kline_out_path_def)

lemma process_intervals_remote_other:
  "q \<notin> (\<lambda>i. get_kline_out_path (symbol res) (month_str res) i) ` set ivs
     \<Longrightarrow> remote (snd (process_intervals e lf res ivs st)) q = remote st q"
proof (induction ivs arbitrary: st)
  case Nil
  show ?case by simp
next
  case (Cons i ivs)
  let ?p = "get_kline_out_path (symbol res) (month_str res) i"
  let ?up = "upload_to_hf e ?p (map_sum id KlineFrame (join_to_interval lf i))
               (symbol res) (month_str res) True st"
  have q: "q \<noteq> ?p" using Cons.prems by simp
  have r: "remote (snd ?up) q = remote st q" using q by (rule upload_to_hf_remote_other)
  obtain r1 st1 where up: "?up = (r1, st1)" by (cases ?up)
  show ?case
  proof (cases r1)
    case (Inl err)
    then show ?thesis using up r by (simp add: Let_def)
  next
    case (Inr x)
    have "remote (snd (process_intervals e lf res ivs st1)) q = remote st1 q"
      using Cons.IH Cons.prems by simp
    then show ?thesis using up r Inr by (simp add: Let_def)
  qed
qed

lemma upload_to_hf_published:
  assumes "upload_to_hf e p lf s m True st = (Inr (), st')" "p \<notin> set (files e)"
  shows "\<exists>t. lf = Inr t \<and> remote st' p = Some (with_columns t s m)"
  using assms by (auto simp: upload_to_hf_def Let_def split: sum.splits option.splits)

lemma process_intervals_published:
  assumes "process_intervals e lf res ivs st = (Inr (), st')" "distinct ivs" "i \<in> set ivs"
    and "get_kline_out_path (symbol res) (month_str res) i \<notin> set (files e)"
  shows "\<exists>ks. join_to_interval lf i = Inr ks
           \<and> remote st' (get_kline_out_path (symbol res) (month_str res) i)
               = Some (with_columns (KlineFrame ks) (symbol res) (month_str res))"
  using assms
proof (induction ivs arbitrary: st)
  case Nil
  then show ?case by simp
next
  case (Cons j ivs)
  let ?path = "\<lambda>i. get_kline_out_path (symbol res) (month_str res) i"
  let ?up = "upload_to_hf e (?path j) (map_sum id KlineFrame (join_to_interval lf j))
               (symbol res) (month_str res) True st"
  obtain r1 st1 where up: "?up = (r1, st1)" by (cases ?up)
  have r1: "r1 = Inr ()" and rest: "process_intervals e lf res ivs st1 = (Inr (), st')"
    using Cons.prems(1) up by (auto simp: Let_def split: sum.splits)
  show ?case
  proof (cases "i = j")
    case True
    have "?path i \<notin> ?path ` set ivs"
      using Cons.prems(2) True kline_path_inj by fastforce
    then have keep: "remote st' (?path i) = remote st1 (?path i)"
      using process_intervals_remote_other [of "?path i" res ivs e lf st1] rest by simp
    obtain t where t: "map_sum id KlineFrame (join_to_interval lf j) = Inr t"
        "remote st1 (?path j) = Some (with_columns t (symbol res) (month_str res))"
      using upload_to_hf_published [of e "?path j" _ "symbol res" "month_str res" st st1]
        up r1 Cons.prems(4) True by blast
    then obtain ks where "join_to_interval lf j = Inr ks" "t = KlineFrame ks"
      by (cases "join_to_interval lf j") auto
    then show ?thesis using t keep True by simp
  next
    case False
    then show ?thesis using Cons.IH [OF rest] Cons.prems by simp
  qed
qed

lemma sample_datetimes:
  "datetime_col sample_rows = [Some 0, Some 30000, Some 59999, Some 7200000]"
  by (simp add: datetime_col_def sample_rows_def minute_rows_def trade_row_def)

lemma sample_timed:
  "those (map (\<lambda>r. map_option (\<lambda>t. (sint t, r)) (transact_time r)) sample_rows)
     = Some (map (\<lambda>r. (sint (the (transact_time r)), r)) sample_rows)"
  by (simp add: sample_rows_def minute_rows_def trade_row_def)

lemma sample_grouped:
  "group_by_dynamic w sample_rows
     = Inr (group_windows w (map (\<lambda>r. (sint (the (transact_time r)), r)) sample_rows))"
  unfolding group_by_dynamic_def sample_datetimes sample_timed
  by (simp add: nulls_first_le_def)

lemma sample_joined:
  "i \<in> set process_interval \<Longrightarrow> \<exists>ks. join_to_interval (Inr sample_rows) i = Inr ks"
  by (auto simp: join_to_interval_def sample_grouped process_interval_def every_ms_def)

lemma upload_to_hf_ok:
  "upload_file e p = None \<Longrightarrow> fst (upload_to_hf e p (Inr t) s m sk st) = Inr ()"
  by (simp add: upload_to_hf_def Let_def)

lemma process_intervals_ok:
  assumes "\<forall>i \<in> set ivs. \<exists>ks. join_to_interval lf i = Inr ks" and "\<forall>p. upload_file e p = None"
  shows "fst (process_intervals e lf res ivs st) = Inr ()"
  using assms(1)
proof (induction ivs arbitrary: st)
  case Nil
  show ?case by simp
next
  case (Cons i ivs)
  let ?p = "get_kline_out_path (symbol res) (month_str res) i"
  obtain ks where ks: "join_to_interval lf i = Inr ks" using Cons.prems by auto
  let ?up = "upload_to_hf e ?p (Inr (KlineFrame ks)) (symbol res) (month_str res) True st"
  have ok: "fst ?up = Inr ()" using assms(2) by (simp add: upload_to_hf_ok)
  obtain st1 where up: "?up = (Inr (), st1)" using ok by (cases ?up) simp
  have "fst (process_intervals e lf res ivs st1) = Inr ()" using Cons.IH Cons.prems by simp
  then show ?case using ks up by (simp add: Let_def)
qed

lemma drop_nulls_served:
  "drop_nulls (sample_rows @ [(trade_row 0 1 1 1 1 7200001 None)\<lparr>agg_trade_id := None\<rparr>]) = sample_rows"
  by (simp add: drop_nulls_def sample_rows_def minute_rows_def trade_row_def)

lemma serving_run_ok: "fst (process_one_url serving_env btc_url start_state) = Inr ()"
proof -
  let ?res = "\<lparr>url = btc_url, file_name = ''BTCUSDT-aggTrades-2024-01.zip'',
                symbol = ''BTCUSDT'', month_str = ''2024-01''\<rparr>"
  let ?st2 = "start_state\<lparr>calls := calls start_state @ [Download btc_url],
                calls := (calls start_state @ [Download btc_url]) @ [Extract [0x50, 0x4B]]\<rparr>"
  let ?up = "upload_to_hf serving_env (get_agg_trade_out_path ''BTCUSDT'' ''2024-01'')
               (Inr (RawFrame sample_rows)) ''BTCUSDT'' ''2024-01'' True ?st2"
  have u: "upload_file serving_env p = None" for p by (simp add: serving_env_def)
  have "fst ?up = Inr ()" using u by (rule upload_to_hf_ok)
  then obtain st3 where up: "?up = (Inr (), st3)" by (cases ?up) simp
  have loop: "fst (process_intervals serving_env (Inr sample_rows) ?res process_interval st3) = Inr ()"
    using sample_joined u by (intro process_intervals_ok) auto
  have f: "files serving_env = []" by (simp add: serving_env_def)
  have g: "http_get serving_env btc_url = Inr [0x50, 0x4B]" by (simp add: serving_env_def)
  have c: "scan_csv serving_env [0x50, 0x4B]
     = Inr (Inr (sample_rows @ [(trade_row 0 1 1 1 1 7200001 None)\<lparr>agg_trade_id := None\<rparr>]))"
    by (simp add: serving_env_def)
  show ?thesis
    unfolding process_one_url_def parse_btc_url
    using up loop
    by (simp add: Let_def f g c download_zip_file_def content_to_lf_def drop_nulls_served)
qed

text \<open>
  C8. The tagging of \<open>upload_to_hf\<close> builds the table that is written and leaves the table
  it was given as it is: when a URL whose raw path is not in the listing has been processed
  without error, the raw object in the repository is the extractor's table (the parsed
  rows that have an \<open>agg_trade_id\<close>) with the two tags, and for each of the five intervals
  whose path is not in the listing, the object in the repository is the aggregation of
  that same table, computed by \<open>join_to_interval\<close> from the rows without tags, and then
  tagged. No publish call before an aggregation changes what it is computed from.
\<close>

theorem aggregates_from_raw_table:
  assumes run: "process_one_url e u st = (Inr (), st')"
    and parse: "parse_url u = Inr res"
    and fresh: "get_agg_trade_out_path (symbol res) (month_str res) \<notin> set (files e)"
  shows "\<exists>content parsed.
           http_get e u = Inr content \<and> scan_csv e content = Inr (Inr parsed)
           \<and> remote st' (get_agg_trade_out_path (symbol res) (month_str res))
               = Some (with_columns (RawFrame (drop_nulls parsed)) (symbol res) (month_str res))
           \<and> (\<forall>i \<in> set process_interval.
                 get_kline_out_path (symbol res) (month_str res) i \<notin> set (files e) \<longrightarrow>
                 (\<exists>ks. join_to_interval (Inr (drop_nulls parsed)) i = Inr ks
                    \<and> remote st' (get_kline_out_path (symbol res) (month_str res) i)
                        = Some (with_columns (KlineFrame ks) (symbol res) (month_str res))))"
proof -
  let ?raw = "get_agg_trade_out_path (symbol res) (month_str res)"
  let ?kp = "\<lambda>i. get_kline_out_path (symbol res) (month_str res) i"
  let ?st1 = "st\<lparr>calls := calls st @ [Download u]\<rparr>"
  obtain content where get: "http_get e u = Inr content"
    using run parse fresh
    by (cases "http_get e u") (auto simp: process_one_url_def Let_def download_zip_file_def)
  let ?st2 = "?st1\<lparr>calls := calls ?st1 @ [Extract content]\<rparr>"
  obtain lf0 where scan: "scan_csv e content = Inr lf0"
    using run parse fresh get
    by (cases "scan_csv e content")
       (auto simp: process_one_url_def Let_def download_zip_file_def content_to_lf_def)
  let ?lf = "map_sum id drop_nulls lf0"
  obtain r3 st3 where up: "upload_to_hf e ?raw (map_sum id RawFrame ?lf)
                              (symbol res) (month_str res) True ?st2 = (r3, st3)"
    by (cases "upload_to_hf e ?raw (map_sum id RawFrame ?lf)
                 (symbol res) (month_str res) True ?st2")
  have r3: "r3 = Inr ()" and loop: "process_intervals e ?lf res process_interval st3 = (Inr (), st')"
    using run parse fresh get scan up
    by (auto simp: process_one_url_def Let_def download_zip_file_def content_to_lf_def
             split: sum.splits)
  obtain t where t: "map_sum id RawFrame ?lf = Inr t"
      "remote st3 ?raw = Some (with_columns t (symbol res) (month_str res))"
    using upload_to_hf_published [of e ?raw _ "symbol res" "month_str res" ?st2 st3] up r3 fresh
    by blast
  then obtain parsed where parsed: "lf0 = Inr parsed" "t = RawFrame (drop_nulls parsed)"
    by (cases lf0) auto
  have "?raw \<notin> ?kp ` set process_interval"
    by (auto simp: get_kline_out_path_def get_agg_trade_out_path_def)
  then have "remote st' ?raw = remote st3 ?raw"
    using process_intervals_remote_other [of ?raw res process_interval e ?lf st3] loop by simp
  then have raw: "remote st' ?raw
      = Some (with_columns (RawFrame (drop_nulls parsed)) (symbol res) (month_str res))"
    using t parsed by simp
  have d: "distinct process_interval" by (simp add: process_interval_def)
  have "\<exists>ks. join_to_interval (Inr (drop_nulls parsed)) i = Inr ks
          \<and> remote st' (?kp i) = Some (with_columns (KlineFrame ks) (symbol res) (month_str res))"
    if "i \<in> set process_interval" "?kp i \<notin> set (files e)" for i
    using process_intervals_published [OF loop d that] parsed by simp
  then show ?thesis using get scan parsed raw by blast
qed

theorem aggregates_from_raw_table_witness:
  "process_one_url serving_env btc_url start_state = (Inr (), served_state)
   \<and> get_agg_trade_out_path ''BTCUSDT'' ''2024-01'' \<notin> set (files serving_env)
   \<and> remote served_state (get_agg_trade_out_path ''BTCUSDT'' ''2024-01'')
        = Some (with_columns (RawFrame sample_rows) ''BTCUSDT'' ''2024-01'')
   \<and> (\<exists>ks. join_to_interval (Inr sample_rows) ''1h'' = Inr ks
          \<and> remote served_state (get_kline_out_path ''BTCUSDT'' ''2024-01'' ''1h'')
              = Some (with_columns (KlineFrame ks) ''BTCUSDT'' ''2024-01''))"
proof -
  let ?res = "\<lparr>url = btc_url, file_name = ''BTCUSDT-aggTrades-2024-01.zip'',
                symbol = ''BTCUSDT'', month_str = ''2024-01''\<rparr>"
  have run: "process_one_url serving_env btc_url start_state = (Inr (), served_state)"
    using serving_run_ok by (simp add: served_state_def prod_eq_iff)
  have f: "files serving_env = []" by (simp add: serving_env_def)
  have fresh: "get_agg_trade_out_path (symbol ?res) (month_str ?res) \<notin> set (files serving_env)"
    by (simp add: f)
  have fresh': "get_agg_trade_out_path ''BTCUSDT'' ''2024-01'' \<notin> set (files serving_env)"
    by (simp add: f)
  have h: "''1h'' \<in> set process_interval" by (simp add: process_interval_def)
  have k: "get_kline_out_path (symbol ?res) (month_str ?res) ''1h'' \<notin> set (files serving_env)"
    by (simp add: f)
  have s: "scan_csv serving_env c = Inr (Inr p) \<Longrightarrow> drop_nulls p = sample_rows" for c p
    using drop_nulls_served by (auto simp: serving_env_def)
  obtain content parsed where
      sc: "scan_csv serving_env content = Inr (Inr parsed)"
    and raw: "remote served_state (get_agg_trade_out_path (symbol ?res) (month_str ?res))
               = Some (with_columns (RawFrame (drop_nulls parsed)) (symbol ?res) (month_str ?res))"
    and kl: "\<forall>i \<in> set process_interval.
               get_kline_out_path (symbol ?res) (month_str ?res) i \<notin> set (files serving_env) \<longrightarrow>
               (\<exists>ks. join_to_interval (Inr (drop_nulls parsed)) i = Inr ks
                  \<and> remote served_state (get_kline_out_path (symbol ?res) (month_str ?res) i)
                      = Some (with_columns (KlineFrame ks) (symbol ?res) (month_str ?res)))"
    using aggregates_from_raw_table [OF run parse_btc_url fresh] by blast
  have d: "drop_nulls parsed = sample_rows" using sc by (rule s)
  have raw': "remote served_state (get_agg_trade_out_path ''BTCUSDT'' ''2024-01'')
        = Some (with_columns (RawFrame sample_rows) ''BTCUSDT'' ''2024-01'')"
    using raw d by simp
  have "\<exists>ks. join_to_interval (Inr (drop_nulls parsed)) ''1h'' = Inr ks
          \<and> remote served_state (get_kline_out_path (symbol ?res) (month_str ?res) ''1h'')
              = Some (with_columns (KlineFrame ks) (symbol ?res) (month_str ?res))"
    using kl h k by blast
  then have "\<exists>ks. join_to_interval (Inr sample_rows) ''1h'' = Inr ks
          \<and> remote served_state (get_kline_out_path ''BTCUSDT'' ''2024-01'' ''1h'')
              = Some (with_columns (KlineFrame ks) ''BTCUSDT'' ''2024-01'')"
    unfolding d by simp
  with run fresh' raw' show ?thesis by blast
qed

section \<open>Properties of the Interval Aggregator\<close>





































end
